theory Spec2Isabelle
  imports Main "HOL-Library.Word"
begin

section \<open>Build configuration\<close>

text \<open>
  \<^verbatim>\<open>include/caffe/common.hpp\<close> is compiled under two preprocessor toggles that change
  the bodies of the functions below: \<^verbatim>\<open>CPU_ONLY\<close> (no device support) and
  \<^verbatim>\<open>USE_CNMEM\<close> (the pooling library is linked in). A build is a choice of both.
\<close>

record build =
  CPU_ONLY :: bool
  USE_CNMEM :: bool

section \<open>Fatal termination\<close>

text \<open>
  \<^verbatim>\<open>LOG(FATAL) << msg\<close> of glog writes the message and terminates the process. A
  computation that may do so returns \<open>fatal + 'a\<close>; \<open>Inl\<close> is the terminated process and
  sequencing never runs the continuation after it.
\<close>

datatype fatal = Fatal string

definition LOG_FATAL :: "string \<Rightarrow> fatal + 'a" where
  "LOG_FATAL msg = Inl (Fatal msg)"

definition seq :: "fatal + 'a \<Rightarrow> ('a \<Rightarrow> fatal + 'b) \<Rightarrow> fatal + 'b" where
  "seq r k = (case r of Inl f \<Rightarrow> Inl f | Inr x \<Rightarrow> k x)"

text \<open>\<^verbatim>\<open>#define NOT_IMPLEMENTED LOG(FATAL) << "Not Implemented Yet"\<close> (common.hpp, line 110).\<close>

definition NOT_IMPLEMENTED :: "fatal + 'a" where
  "NOT_IMPLEMENTED = LOG_FATAL ''Not Implemented Yet''"

section \<open>MemoryHandler\<close>

text \<open>
  The members of \<^verbatim>\<open>class MemoryHandler\<close> (lines 264-266). The C++ names end in an
  underscore, which Isabelle does not accept in a name; the fields carry the suffix
  \<open>_m\<close> instead: \<open>using_pool_m\<close> is \<^verbatim>\<open>using_pool_\<close>, and so on.
\<close>

record MemoryHandler =
  using_pool_m :: bool
  initialized_m :: bool
  gpus_m :: "int list"

text \<open>\<^verbatim>\<open>MemoryHandler() : using_pool_(false), initialized_(false) {}\<close>; the vector starts empty.\<close>

definition MemoryHandler_new :: MemoryHandler where
  "MemoryHandler_new = \<lparr>using_pool_m = False, initialized_m = False, gpus_m = []\<rparr>"

text \<open>
  Device addresses and streams are opaque numbers; address \<open>0\<close> is the null handle and
  stream \<open>0\<close> is \<^verbatim>\<open>cudaStreamDefault\<close>. Sizes are natural numbers (no claim depends on
  the width of \<^verbatim>\<open>size_t\<close>).
\<close>

type_synonym ptr = nat
type_synonym cudaStream_t = nat

definition cudaStreamDefault :: cudaStream_t where
  "cudaStreamDefault = 0"

text \<open>
  Two logs make the effects of the static interface observable. \<open>calls\<close> records every
  state-changing call of a public static function of \<^verbatim>\<open>MemoryHandler\<close>, with its
  arguments, in program order. \<open>effects\<close> records what reaches the device: pool setup and
  teardown, and each allocation or release with the path that served it.
\<close>

datatype call =
    Call_usePool
  | Call_setGPUs "int list"
  | Call_mallocGPU nat cudaStream_t
  | Call_freeGPU ptr cudaStream_t
  | Call_destroy

datatype effect =
    PoolSetup "int list"
  | PoolTeardown
  | PoolAlloc nat cudaStream_t
  | DirectAlloc nat
  | PoolFree ptr cudaStream_t
  | DirectFree ptr

text \<open>
  \<^verbatim>\<open>MemoryHandler::Get()\<close> returns the one instance of the process; it is the field
  \<open>instance\<close> of the process state.
\<close>

record world =
  "instance" :: MemoryHandler
  calls :: "call list"
  effects :: "effect list"

definition world_new :: world where
  "world_new = \<lparr>instance = MemoryHandler_new, calls = [], effects = []\<rparr>"

text \<open>\<^verbatim>\<open>static void setGPUs(const std::vector<int>& gpus) { Get().gpus_ = gpus; }\<close>\<close>

definition setGPUs :: "int list \<Rightarrow> world \<Rightarrow> world" where
  "setGPUs gpus w =
     w\<lparr>instance := (instance w)\<lparr>gpus_m := gpus\<rparr>, calls := calls w @ [Call_setGPUs gpus]\<rparr>"

text \<open>\<^verbatim>\<open>static void usePool() { Get().using_pool_ = true; }\<close>\<close>

definition usePool :: "world \<Rightarrow> world" where
  "usePool w =
     w\<lparr>instance := (instance w)\<lparr>using_pool_m := True\<rparr>, calls := calls w @ [Call_usePool]\<rparr>"

text \<open>
  \<^verbatim>\<open>static bool usingPool()\<close>: with \<^verbatim>\<open>USE_CNMEM\<close> it returns the member, without it
  the body is \<^verbatim>\<open>return false;\<close>.
\<close>

definition usingPool :: "build \<Rightarrow> world \<Rightarrow> bool" where
  "usingPool b w = (if USE_CNMEM b then using_pool_m (instance w) else False)"

subsection \<open>The functions that common.hpp only declares\<close>

text \<open>
  The device library and the pooling library are outside the repository. What they answer
  to an allocation request is a parameter: a function of the device traffic so far, the
  size and (for the pool) the stream, giving the new address, or \<open>None\<close> when the library
  reports an error.
\<close>

record device_api =
  pool_malloc :: "effect list \<Rightarrow> nat \<Rightarrow> cudaStream_t \<Rightarrow> ptr option"
  direct_malloc :: "effect list \<Rightarrow> nat \<Rightarrow> ptr option"

text \<open>
  Modelled from the spec: \<^verbatim>\<open>MemoryHandler::Init\<close> is declared at line 256 and its body is
  not in the sources. The spec (4.2, initialize): it performs device-side pool setup across
  all configured devices; calling it twice without an intervening destroy is a no-op
  guarded by \<^verbatim>\<open>initialized\<close>.
\<close>

definition Init :: "world \<Rightarrow> world" where
  "Init w =
     (if initialized_m (instance w) then w
      else w\<lparr>instance := (instance w)\<lparr>initialized_m := True\<rparr>,
             effects := effects w @ [PoolSetup (gpus_m (instance w))]\<rparr>)"

text \<open>
  Modelled from the spec: \<^verbatim>\<open>MemoryHandler::allocate_memory\<close> is declared at line 259 and
  its body is not in the sources. The spec (4.2, allocate): if \<^verbatim>\<open>initialized\<close>, the request
  is served from the pool scoped to the stream; otherwise it falls back to a direct device
  allocation. It returns the device handle; failure of the device interface is a fatal
  allocation error.
\<close>

definition allocate_memory ::
  "device_api \<Rightarrow> nat \<Rightarrow> cudaStream_t \<Rightarrow> world \<Rightarrow> fatal + (ptr \<times> world)" where
  "allocate_memory api sz stream w =
     (if initialized_m (instance w) then
        (case pool_malloc api (effects w) sz stream of
           None \<Rightarrow> LOG_FATAL ''pool allocation failed''
         | Some p \<Rightarrow> Inr (p, w\<lparr>effects := effects w @ [PoolAlloc sz stream]\<rparr>))
      else
        (case direct_malloc api (effects w) sz of
           None \<Rightarrow> LOG_FATAL ''device allocation failed''
         | Some p \<Rightarrow> Inr (p, w\<lparr>effects := effects w @ [DirectAlloc sz]\<rparr>)))"

text \<open>
  Modelled from the spec: \<^verbatim>\<open>MemoryHandler::mallocGPU\<close> is declared at lines 236-237 and
  its body is not in the sources. It is the static entry point of allocate: the call on the
  instance, written through the out-parameter \<^verbatim>\<open>ptr\<close>, which is the returned address here.
\<close>

definition mallocGPU ::
  "device_api \<Rightarrow> nat \<Rightarrow> cudaStream_t \<Rightarrow> world \<Rightarrow> fatal + (ptr \<times> world)" where
  "mallocGPU api sz stream w =
     allocate_memory api sz stream (w\<lparr>calls := calls w @ [Call_mallocGPU sz stream]\<rparr>)"

text \<open>
  Modelled from the spec: \<^verbatim>\<open>MemoryHandler::free_memory\<close> and \<^verbatim>\<open>freeGPU\<close> are declared at
  lines 260 and 238 and their bodies are not in the sources. The spec (4.2, free): the memory
  goes back to the pool if pooling is active, else directly to the device.
\<close>

definition free_memory :: "ptr \<Rightarrow> cudaStream_t \<Rightarrow> world \<Rightarrow> world" where
  "free_memory p stream w =
     (if initialized_m (instance w) then w\<lparr>effects := effects w @ [PoolFree p stream]\<rparr>
      else w\<lparr>effects := effects w @ [DirectFree p]\<rparr>)"

definition freeGPU :: "ptr \<Rightarrow> cudaStream_t \<Rightarrow> world \<Rightarrow> world" where
  "freeGPU p stream w = free_memory p stream (w\<lparr>calls := calls w @ [Call_freeGPU p stream]\<rparr>)"

text \<open>
  Modelled from the spec: \<^verbatim>\<open>MemoryHandler::destroy\<close> is declared at line 251 and its body
  is not in the sources. The spec (4.2, destroy): it tears down the pool, returns reserved
  device memory, and resets \<^verbatim>\<open>initialized\<close> and \<^verbatim>\<open>enabled\<close> to false; it is safe to call
  when the pool was never initialized, where there is nothing to tear down.
\<close>

definition destroy :: "world \<Rightarrow> world" where
  "destroy w =
     w\<lparr>instance := (instance w)\<lparr>using_pool_m := False, initialized_m := False\<rparr>,
       calls := calls w @ [Call_destroy],
       effects := effects w @ (if initialized_m (instance w) then [PoolTeardown] else [])\<rparr>"

section \<open>MemoryHandlerActivator\<close>

text \<open>The one member, \<^verbatim>\<open>int using_pool_;\<close> (line 290): an \<^verbatim>\<open>int\<close> that holds a truth value.\<close>

record MemoryHandlerActivator =
  activator_using_pool_m :: int

text \<open>
  The constructor, lines 271-283. The initializer list stores \<^verbatim>\<open>false\<close> (0); for a
  non-empty vector the body stores \<^verbatim>\<open>true\<close> (1), calls \<^verbatim>\<open>usePool()\<close> and
  \<^verbatim>\<open>setGPUs(gpus)\<close> and, unless the build is \<^verbatim>\<open>CPU_ONLY\<close>, calls
  \<^verbatim>\<open>mallocGPU(&temp, 4)\<close> and \<^verbatim>\<open>freeGPU(temp)\<close>, both on the default stream. A fatal
  allocation ends the process inside the constructor.
\<close>

definition MemoryHandlerActivator_ctor ::
  "build \<Rightarrow> device_api \<Rightarrow> int list \<Rightarrow> world \<Rightarrow> fatal + (MemoryHandlerActivator \<times> world)" where
  "MemoryHandlerActivator_ctor b api gpus w =
     (let this = \<lparr>activator_using_pool_m = 0\<rparr> in
      if length gpus > 0 then
        (let this = this\<lparr>activator_using_pool_m := 1\<rparr>;
             w = usePool w;
             w = setGPUs gpus w
         in if \<not> CPU_ONLY b then
              seq (mallocGPU api 4 cudaStreamDefault w)
                (\<lambda>(temp, w). Inr (this, freeGPU temp cudaStreamDefault w))
            else Inr (this, w))
      else Inr (this, w))"

text \<open>The destructor, lines 284-288: \<^verbatim>\<open>if (using_pool_) { MemoryHandler::destroy(); }\<close>\<close>

definition MemoryHandlerActivator_dtor :: "MemoryHandlerActivator \<Rightarrow> world \<Rightarrow> world" where
  "MemoryHandlerActivator_dtor this w =
     (if activator_using_pool_m this \<noteq> 0 then destroy w else w)"

text \<open>
  A scope that holds an activation as a local object. The body of the scope runs on the
  state the constructor leaves and ends either by returning or by throwing; C++ runs the
  destructor of the local object on both ways out, then the exit continues.
\<close>

datatype exit = Returned | Thrown string

definition scope ::
  "build \<Rightarrow> device_api \<Rightarrow> int list \<Rightarrow> (world \<Rightarrow> exit \<times> world) \<Rightarrow> world \<Rightarrow> fatal + (exit \<times> world)" where
  "scope b api gpus body w =
     seq (MemoryHandlerActivator_ctor b api gpus w)
       (\<lambda>(this, w1). case body w1 of (ex, w2) \<Rightarrow> Inr (ex, MemoryHandlerActivator_dtor this w2))"

text \<open>The calls a piece of the run added to the log: what follows the first \<open>n\<close> entries.\<close>

definition calls_since :: "world \<Rightarrow> world \<Rightarrow> call list" where
  "calls_since w0 w = drop (length (calls w0)) (calls w)"

section \<open>Runs of the allocator's operations\<close>

text \<open>
  The operations that change the allocator, as a caller issues them. \<^verbatim>\<open>Init\<close> has the
  precondition the spec gives it (4.2: configure must be called before initialize, so pooling
  is enabled when it runs); a run that breaks it has no defined behaviour and stops as
  \<open>Misuse\<close>. A fatal allocation stops the run as \<open>Died\<close>.
\<close>

datatype op =
    Op_usePool
  | Op_setGPUs "int list"
  | Op_Init
  | Op_mallocGPU nat cudaStream_t
  | Op_freeGPU ptr cudaStream_t
  | Op_destroy

datatype stop = Died fatal | Misuse

fun exec :: "device_api \<Rightarrow> op \<Rightarrow> world \<Rightarrow> stop + world" where
  "exec api Op_usePool w = Inr (usePool w)"
| "exec api (Op_setGPUs gpus) w = Inr (setGPUs gpus w)"
| "exec api Op_Init w = (if using_pool_m (instance w) then Inr (Init w) else Inl Misuse)"
| "exec api (Op_mallocGPU sz stream) w =
     (case mallocGPU api sz stream w of Inl f \<Rightarrow> Inl (Died f) | Inr (p, w') \<Rightarrow> Inr w')"
| "exec api (Op_freeGPU p stream) w = Inr (freeGPU p stream w)"
| "exec api Op_destroy w = Inr (destroy w)"

fun run :: "device_api \<Rightarrow> op list \<Rightarrow> world \<Rightarrow> stop + world" where
  "run api [] w = Inr w"
| "run api (x # xs) w = (case exec api x w of Inl e \<Rightarrow> Inl e | Inr w' \<Rightarrow> run api xs w')"

text \<open>The invariant of the spec's data model: \<^verbatim>\<open>initialized\<close> implies \<^verbatim>\<open>enabled\<close>.\<close>

definition pool_inv :: "world \<Rightarrow> bool" where
  "pool_inv w = (initialized_m (instance w) \<longrightarrow> using_pool_m (instance w))"

section \<open>Caffe\<close>

text \<open>\<^verbatim>\<open>enum Brew { CPU, GPU };\<close>\<close>

datatype Brew = CPU | GPU

text \<open>
  The generators behind \<^verbatim>\<open>class RNG\<close> and \<^verbatim>\<open>curandGenerator_t\<close> belong to libraries
  outside the repository. Such a generator is deterministic: its state is fixed by the seed
  it was created from and the number of values drawn from it since. The value it gives at
  each position is a parameter \<open>output\<close> of the functions that draw.
\<close>

datatype gen = Gen (seed_of: "32 word") (drawn: nat)

definition RNG_seeded :: "32 word \<Rightarrow> gen" where
  "RNG_seeded seed = Gen seed 0"

text \<open>
  The members of \<^verbatim>\<open>class Caffe\<close> (lines 212-223), named as the fields of
  \<^verbatim>\<open>MemoryHandler\<close> are. A null \<^verbatim>\<open>shared_ptr\<close> is \<open>None\<close>; \<open>curand_generator_m\<close> is
  \<open>None\<close> where the build has no such member or the handle was not created.
\<close>

record Caffe =
  curand_generator_m :: "gen option"
  random_generator_m :: "gen option"
  mode_m :: Brew
  solver_count_m :: int
  root_solver_m :: bool

type_synonym thread = nat
type_synonym tls = "thread \<Rightarrow> Caffe option"

text \<open>
  Modelled from the spec: \<^verbatim>\<open>Caffe::Get()\<close> is declared at line 155 (``Thread local context
  for Caffe'') and its body is not in the sources, nor is the constructor \<^verbatim>\<open>Caffe()\<close>. The
  spec (4.1): the accessor returns the calling thread's instance, creating it if absent. The
  instance the constructor builds is the parameter \<open>fresh\<close>.
\<close>

definition Get :: "Caffe \<Rightarrow> thread \<Rightarrow> tls \<Rightarrow> Caffe \<times> tls" where
  "Get fresh t s = (case s t of None \<Rightarrow> (fresh, s(t \<mapsto> fresh)) | Some c \<Rightarrow> (c, s))"

text \<open>\<^verbatim>\<open>inline static Brew mode() { return Get().mode_; }\<close>\<close>

definition mode :: "Caffe \<Rightarrow> thread \<Rightarrow> tls \<Rightarrow> Brew \<times> tls" where
  "mode fresh t s = (case Get fresh t s of (c, s') \<Rightarrow> (mode_m c, s'))"

text \<open>\<^verbatim>\<open>inline static void set_mode(Brew mode) { Get().mode_ = mode; }\<close>\<close>

definition set_mode :: "Caffe \<Rightarrow> thread \<Rightarrow> Brew \<Rightarrow> tls \<Rightarrow> tls" where
  "set_mode fresh t m s = (case Get fresh t s of (c, s') \<Rightarrow> s'(t \<mapsto> c\<lparr>mode_m := m\<rparr>))"

text \<open>Mode changes made by a list of threads, one after the other.\<close>

fun set_modes :: "Caffe \<Rightarrow> (thread \<times> Brew) list \<Rightarrow> tls \<Rightarrow> tls" where
  "set_modes fresh [] s = s"
| "set_modes fresh ((u, m) # xs) s = set_modes fresh xs (set_mode fresh u m s)"

text \<open>
  \<^verbatim>\<open>rng_stream()\<close>, lines 174-179: a null \<^verbatim>\<open>random_generator_\<close> is first replaced by
  \<^verbatim>\<open>new RNG()\<close>, then the generator is returned. The default constructor of \<^verbatim>\<open>RNG\<close> is
  only declared; the seed it picks is the parameter \<open>dflt\<close>.
\<close>

definition rng_stream :: "Caffe \<Rightarrow> 32 word \<Rightarrow> thread \<Rightarrow> tls \<Rightarrow> gen \<times> tls" where
  "rng_stream fresh dflt t s =
     (case Get fresh t s of (c, s') \<Rightarrow>
        (case random_generator_m c of
           None \<Rightarrow> (RNG_seeded dflt, s'(t \<mapsto> c\<lparr>random_generator_m := Some (RNG_seeded dflt)\<rparr>))
         | Some g \<Rightarrow> (g, s')))"

text \<open>
  One draw through the reference \<^verbatim>\<open>rng_stream()\<close> returns: the value at the generator's
  position, and the generator advanced in place.
\<close>

definition draw ::
  "(32 word \<Rightarrow> nat \<Rightarrow> 32 word) \<Rightarrow> Caffe \<Rightarrow> 32 word \<Rightarrow> thread \<Rightarrow> tls \<Rightarrow> 32 word \<times> tls" where
  "draw output fresh dflt t s =
     (case rng_stream fresh dflt t s of (g, s') \<Rightarrow>
        (case Get fresh t s' of (c, s'') \<Rightarrow>
           (output (seed_of g) (drawn g),
            s''(t \<mapsto> c\<lparr>random_generator_m := Some (Gen (seed_of g) (Suc (drawn g)))\<rparr>))))"

fun draws ::
  "(32 word \<Rightarrow> nat \<Rightarrow> 32 word) \<Rightarrow> Caffe \<Rightarrow> 32 word \<Rightarrow> thread \<Rightarrow> nat \<Rightarrow> tls \<Rightarrow> 32 word list \<times> tls" where
  "draws output fresh dflt t 0 s = ([], s)"
| "draws output fresh dflt t (Suc n) s =
     (case draw output fresh dflt t s of (v, s') \<Rightarrow>
        (case draws output fresh dflt t n s' of (vs, s'') \<Rightarrow> (v # vs, s'')))"

text \<open>
  Modelled from the spec: \<^verbatim>\<open>Caffe::set_random_seed\<close> is declared at line 199 (``Sets the
  random seed of both boost and curand'') and its body is not in the sources. The spec (4.1):
  it reseeds both the host-side and the device-side generator from the seed. A
  \<^verbatim>\<open>CPU_ONLY\<close> build has no device-side member.
\<close>

definition set_random_seed :: "build \<Rightarrow> Caffe \<Rightarrow> thread \<Rightarrow> 32 word \<Rightarrow> tls \<Rightarrow> tls" where
  "set_random_seed b fresh t seed s =
     (case Get fresh t s of (c, s') \<Rightarrow>
        s'(t \<mapsto> c\<lparr>random_generator_m := Some (RNG_seeded seed),
                   curand_generator_m :=
                     (if CPU_ONLY b then curand_generator_m c else Some (RNG_seeded seed))\<rparr>))"

section \<open>Concrete inputs\<close>

definition build_gpu_pool :: build where
  "build_gpu_pool = \<lparr>CPU_ONLY = False, USE_CNMEM = True\<rparr>"

definition build_gpu_nopool :: build where
  "build_gpu_nopool = \<lparr>CPU_ONLY = False, USE_CNMEM = False\<rparr>"

definition build_cpu :: build where
  "build_cpu = \<lparr>CPU_ONLY = True, USE_CNMEM = False\<rparr>"

text \<open>A device that answers every request with the address 4096.\<close>

definition api_ok :: device_api where
  "api_ok = \<lparr>pool_malloc = (\<lambda>h n st. Some 4096), direct_malloc = (\<lambda>h n. Some 4096)\<rparr>"

definition body_throws :: "world \<Rightarrow> exit \<times> world" where
  "body_throws w = (Thrown ''error'', w)"

definition caffe_cpu :: Caffe where
  "caffe_cpu = \<lparr>curand_generator_m = None, random_generator_m = None, mode_m = CPU,
                solver_count_m = 1, root_solver_m = True\<rparr>"

definition no_threads :: tls where
  "no_threads = (\<lambda>t. None)"

text \<open>The activation built from the device list \<open>[0]\<close>, and the state its constructor leaves.\<close>

definition activator_on :: MemoryHandlerActivator where
  "activator_on = \<lparr>activator_using_pool_m = 1\<rparr>"

definition world_active :: world where
  "world_active =
     \<lparr>instance = \<lparr>using_pool_m = True, initialized_m = False, gpus_m = [0]\<rparr>,
      calls = [Call_usePool, Call_setGPUs [0], Call_mallocGPU 4 0, Call_freeGPU 4096 0],
      effects = [DirectAlloc 4, DirectFree 4096]\<rparr>"

text \<open>
  The state after enabling the pool on devices 0 and 1, initializing it, and allocating
  and releasing 1024 bytes.
\<close>

definition world_session :: world where
  "world_session =
     \<lparr>instance = \<lparr>using_pool_m = True, initialized_m = True, gpus_m = [0, 1]\<rparr>,
      calls = [Call_usePool, Call_setGPUs [0, 1], Call_mallocGPU 1024 0, Call_freeGPU 4096 0],
      effects = [PoolSetup [0, 1], PoolAlloc 1024 0, PoolFree 4096 0]\<rparr>"

section \<open>Helper lemmas\<close>

lemma dtor_calls:
  "calls (MemoryHandlerActivator_dtor this w) =
     calls w @ (if activator_using_pool_m this \<noteq> 0 then [Call_destroy] else [])"
  by (simp add: MemoryHandlerActivator_dtor_def destroy_def)

lemma calls_since_append: "calls w' = calls w @ xs \<Longrightarrow> calls_since w w' = xs"
  by (simp add: calls_since_def)

lemma mallocGPU_Inr:
  assumes "mallocGPU api sz st w = Inr (p, w')"
  shows "instance w' = instance w \<and> calls w' = calls w @ [Call_mallocGPU sz st] \<and>
         effects w' = effects w @
           [if initialized_m (instance w) then PoolAlloc sz st else DirectAlloc sz] \<and>
         (if initialized_m (instance w) then pool_malloc api (effects w) sz st
          else direct_malloc api (effects w) sz) = Some p"
  using assms
  by (auto simp: mallocGPU_def allocate_memory_def LOG_FATAL_def
           split: if_splits option.splits)

lemma mallocGPU_Inl:
  assumes "mallocGPU api sz st w = Inl f"
  shows "(if initialized_m (instance w) then pool_malloc api (effects w) sz st
          else direct_malloc api (effects w) sz) = None"
  using assms
  by (auto simp: mallocGPU_def allocate_memory_def LOG_FATAL_def
           split: if_splits option.splits)

lemma freeGPU_frame:
  "instance (freeGPU p st w) = instance w \<and> calls (freeGPU p st w) = calls w @ [Call_freeGPU p st]"
  by (simp add: freeGPU_def free_memory_def)

lemma configure_frame:
  "instance (setGPUs gpus (usePool w)) = (instance w)\<lparr>using_pool_m := True, gpus_m := gpus\<rparr> \<and>
   calls (setGPUs gpus (usePool w)) = calls w @ [Call_usePool, Call_setGPUs gpus] \<and>
   effects (setGPUs gpus (usePool w)) = effects w"
  by (simp add: setGPUs_def usePool_def)

lemma ctor_nonempty:
  assumes "gpus \<noteq> []"
  shows "MemoryHandlerActivator_ctor b api gpus w =
     (if CPU_ONLY b then Inr (\<lparr>activator_using_pool_m = 1\<rparr>, setGPUs gpus (usePool w))
      else seq (mallocGPU api 4 cudaStreamDefault (setGPUs gpus (usePool w)))
             (\<lambda>(temp, w'). Inr (\<lparr>activator_using_pool_m = 1\<rparr>, freeGPU temp cudaStreamDefault w')))"
  using assms by (simp add: MemoryHandlerActivator_ctor_def Let_def)

lemma ctor_empty:
  "MemoryHandlerActivator_ctor b api [] w = Inr (\<lparr>activator_using_pool_m = 0\<rparr>, w)"
  by (simp add: MemoryHandlerActivator_ctor_def)

lemma ctor_Inr:
  assumes "MemoryHandlerActivator_ctor b api gpus w = Inr (this, w1)"
  shows "activator_using_pool_m this = (if gpus = [] then 0 else 1)"
proof (cases "gpus = []")
  case True
  then show ?thesis using assms by (auto simp: ctor_empty)
next
  case False
  then show ?thesis using assms
    by (auto simp: ctor_nonempty seq_def split: if_splits sum.splits)
qed

lemma ctor_Inr_instance:
  assumes "gpus \<noteq> []" and "MemoryHandlerActivator_ctor b api gpus w = Inr (this, w1)"
  shows "instance w1 = (instance w)\<lparr>using_pool_m := True, gpus_m := gpus\<rparr>"
proof (cases "CPU_ONLY b")
  case True
  then show ?thesis using assms by (auto simp: ctor_nonempty configure_frame)
next
  case False
  with assms obtain p wm where
    m: "mallocGPU api 4 cudaStreamDefault (setGPUs gpus (usePool w)) = Inr (p, wm)"
    and w1: "w1 = freeGPU p cudaStreamDefault wm"
    by (auto simp: ctor_nonempty seq_def split: sum.splits)
  show ?thesis using mallocGPU_Inr [OF m] by (simp add: w1 freeGPU_frame configure_frame)
qed

lemma ctor_ok_value:
  "MemoryHandlerActivator_ctor build_gpu_pool api_ok [0] world_new = Inr (activator_on, world_active)"
  by (simp add: MemoryHandlerActivator_ctor_def seq_def Let_def build_gpu_pool_def api_ok_def
      world_new_def MemoryHandler_new_def usePool_def setGPUs_def mallocGPU_def
      allocate_memory_def freeGPU_def free_memory_def cudaStreamDefault_def
      activator_on_def world_active_def)

section \<open>The scoped activation\<close>

text \<open>
  Claim C1. Take an activation whose constructor returned, and a scope body that leaves by
  returning or by throwing (\<open>ex\<close> is either). The scope ends by running the destructor on
  the state the body left, and the destructor adds to the call log exactly one
  \<^verbatim>\<open>destroy()\<close> when the device list was non-empty, and nothing when it was empty.
\<close>

theorem activation_destroys_exactly_once:
  assumes "MemoryHandlerActivator_ctor b api gpus w = Inr (this, w1)"
      and "body w1 = (ex, w2)"
  shows "scope b api gpus body w = Inr (ex, MemoryHandlerActivator_dtor this w2) \<and>
         calls_since w2 (MemoryHandlerActivator_dtor this w2) =
           (if gpus = [] then [] else [Call_destroy])"
proof -
  have "scope b api gpus body w = Inr (ex, MemoryHandlerActivator_dtor this w2)"
    using assms by (simp add: scope_def seq_def)
  moreover have "calls_since w2 (MemoryHandlerActivator_dtor this w2) =
           (if gpus = [] then [] else [Call_destroy])"
    using ctor_Inr [OF assms(1)] by (intro calls_since_append) (simp add: dtor_calls)
  ultimately show ?thesis by simp
qed

text \<open>An activation on device 0 whose scope is left by an exception.\<close>

theorem activation_destroys_exactly_once_witness:
  "MemoryHandlerActivator_ctor build_gpu_pool api_ok [0] world_new = Inr (activator_on, world_active) \<and>
   body_throws world_active = (Thrown ''error'', world_active) \<and>
   scope build_gpu_pool api_ok [0] body_throws world_new =
     Inr (Thrown ''error'', MemoryHandlerActivator_dtor activator_on world_active) \<and>
   calls_since world_active (MemoryHandlerActivator_dtor activator_on world_active) = [Call_destroy]"
proof -
  have b: "body_throws world_active = (Thrown ''error'', world_active)"
    by (simp add: body_throws_def)
  show ?thesis
    using activation_destroys_exactly_once
            [of build_gpu_pool api_ok "[0]" world_new activator_on world_active
                body_throws "Thrown ''error''" world_active, OF ctor_ok_value b]
          ctor_ok_value b
    by simp
qed

text \<open>
  Claim C2, as stated, at a \<^verbatim>\<open>CPU_ONLY\<close> build: constructing an activation on the device
  list \<open>[0]\<close> enables the pool and records the devices, and makes no call of
  \<^verbatim>\<open>mallocGPU\<close> or \<^verbatim>\<open>freeGPU\<close>; the round trip is compiled out by the
  \<^verbatim>\<open>#ifndef CPU_ONLY\<close> at line 277.
\<close>

theorem ctor_cpu_only_no_round_trip:
  "MemoryHandlerActivator_ctor build_cpu api_ok [0] world_new =
     Inr (activator_on,
          \<lparr>instance = \<lparr>using_pool_m = True, initialized_m = False, gpus_m = [0]\<rparr>,
           calls = [Call_usePool, Call_setGPUs [0]], effects = []\<rparr>)"
  by (simp add: MemoryHandlerActivator_ctor_def Let_def build_cpu_def
      world_new_def MemoryHandler_new_def usePool_def setGPUs_def activator_on_def)

text \<open>
  Claim C2, amended. A constructor that returns for a non-empty device list has enabled
  pooling and recorded the device list. In a build with device support its calls were, in
  this order, \<^verbatim>\<open>usePool()\<close>, \<^verbatim>\<open>setGPUs(gpus)\<close>, \<^verbatim>\<open>mallocGPU(&temp, 4)\<close> and
  \<^verbatim>\<open>freeGPU(temp)\<close> on the address that \<^verbatim>\<open>mallocGPU\<close> returned, both on the default
  stream; in a \<^verbatim>\<open>CPU_ONLY\<close> build they were the first two only.
\<close>

theorem ctor_nonempty_call_order:
  assumes "gpus \<noteq> []"
      and "MemoryHandlerActivator_ctor b api gpus w = Inr (this, w1)"
  shows "using_pool_m (instance w1) \<and> gpus_m (instance w1) = gpus \<and>
         (if CPU_ONLY b then calls_since w w1 = [Call_usePool, Call_setGPUs gpus]
          else \<exists>p wm. mallocGPU api 4 cudaStreamDefault (setGPUs gpus (usePool w)) = Inr (p, wm) \<and>
                 w1 = freeGPU p cudaStreamDefault wm \<and>
                 calls_since w w1 =
                   [Call_usePool, Call_setGPUs gpus,
                    Call_mallocGPU 4 cudaStreamDefault, Call_freeGPU p cudaStreamDefault])"
proof (cases "CPU_ONLY b")
  case True
  then have "w1 = setGPUs gpus (usePool w)" using assms by (auto simp: ctor_nonempty)
  then have "calls_since w w1 = [Call_usePool, Call_setGPUs gpus]"
    by (intro calls_since_append) (simp add: configure_frame)
  then show ?thesis using True ctor_Inr_instance [OF assms] by simp
next
  case False
  with assms obtain p wm where
    m: "mallocGPU api 4 cudaStreamDefault (setGPUs gpus (usePool w)) = Inr (p, wm)"
    and w1: "w1 = freeGPU p cudaStreamDefault wm"
    by (auto simp: ctor_nonempty seq_def split: sum.splits)
  have "calls_since w w1 = [Call_usePool, Call_setGPUs gpus,
          Call_mallocGPU 4 cudaStreamDefault, Call_freeGPU p cudaStreamDefault]"
    using mallocGPU_Inr [OF m]
    by (intro calls_since_append) (simp add: w1 freeGPU_frame configure_frame)
  then show ?thesis using False m w1 ctor_Inr_instance [OF assms] by auto
qed

text \<open>The constructor on device 0 in a build with device support.\<close>

theorem ctor_nonempty_call_order_witness:
  "[0::int] \<noteq> [] \<and>
   MemoryHandlerActivator_ctor build_gpu_pool api_ok [0] world_new = Inr (activator_on, world_active) \<and>
   using_pool_m (instance world_active) \<and> gpus_m (instance world_active) = [0] \<and>
   calls_since world_new world_active =
     [Call_usePool, Call_setGPUs [0], Call_mallocGPU 4 0, Call_freeGPU 4096 0]"
proof -
  have ne: "[0::int] \<noteq> []" by simp
  have "calls_since world_new world_active =
     [Call_usePool, Call_setGPUs [0], Call_mallocGPU 4 0, Call_freeGPU 4096 0]"
    by (simp add: calls_since_def world_new_def world_active_def)
  then show ?thesis
    using ctor_nonempty_call_order [OF ne ctor_ok_value] ctor_ok_value by simp
qed

text \<open>
  Claim C3. For the empty device list the constructor returns the process state it was
  given (same allocator, same call log, same device traffic), the destructor of that
  activation returns its state unchanged, so the whole scope is its body alone; and on the
  allocator as constructed \<^verbatim>\<open>usingPool()\<close> is false.
\<close>

theorem empty_activation_no_effects:
  "MemoryHandlerActivator_ctor b api [] w = Inr (\<lparr>activator_using_pool_m = 0\<rparr>, w) \<and>
   MemoryHandlerActivator_dtor \<lparr>activator_using_pool_m = 0\<rparr> w2 = w2 \<and>
   scope b api [] body w = Inr (body w) \<and>
   usingPool b world_new = False"
  by (simp add: ctor_empty MemoryHandlerActivator_dtor_def scope_def seq_def usingPool_def
      world_new_def MemoryHandler_new_def split: prod.splits)

section \<open>The allocator\<close>

text \<open>
  Claim C4. A second \<^verbatim>\<open>Init\<close> changes nothing: the state after two calls is the state
  after one, in particular after \<^verbatim>\<open>usePool\<close> and \<^verbatim>\<open>setGPUs\<close>. The first call sets the
  flag and reserves the pool once, unless the flag was already set; the second reserves
  nothing. With a \<^verbatim>\<open>destroy\<close> in between, the pool is torn down and reserved again.
\<close>

theorem Init_idempotent:
  "Init (Init w) = Init w \<and>
   initialized_m (instance (Init w)) \<and>
   effects (Init w) =
     effects w @ (if initialized_m (instance w) then [] else [PoolSetup (gpus_m (instance w))]) \<and>
   effects (Init (Init (setGPUs gpus (usePool w)))) = effects (Init (setGPUs gpus (usePool w))) \<and>
   effects (Init (destroy (Init w))) =
     effects (Init w) @ [PoolTeardown, PoolSetup (gpus_m (instance w))]"
  by (simp add: Init_def destroy_def)

lemma api_ok_nonnull:
  "pool_malloc api_ok h n s = Some q \<Longrightarrow> q \<noteq> 0" "direct_malloc api_ok h n = Some q \<Longrightarrow> q \<noteq> 0"
  by (auto simp: api_ok_def)

text \<open>
  Claim C5. Let the two libraries give a non-null address whenever they succeed. Then a
  \<^verbatim>\<open>mallocGPU\<close> that returns gives a non-null address: the one the pool gave for this
  stream when the allocator is initialized, the one the device gave otherwise, and the
  device traffic grows by that one request. It ends the process only when the library
  that was asked reported an error. After \<^verbatim>\<open>destroy\<close> the request takes the direct path.
\<close>

theorem mallocGPU_pool_or_direct:
  assumes pool_nonnull: "\<And>h n s q. pool_malloc api h n s = Some q \<Longrightarrow> q \<noteq> 0"
      and direct_nonnull: "\<And>h n q. direct_malloc api h n = Some q \<Longrightarrow> q \<noteq> 0"
  shows "(\<forall>p w'. mallocGPU api sz st w = Inr (p, w') \<longrightarrow>
            p \<noteq> 0 \<and>
            Some p = (if initialized_m (instance w) then pool_malloc api (effects w) sz st
                      else direct_malloc api (effects w) sz) \<and>
            effects w' = effects w @
              [if initialized_m (instance w) then PoolAlloc sz st else DirectAlloc sz]) \<and>
         (\<forall>f. mallocGPU api sz st w = Inl f \<longrightarrow>
            (if initialized_m (instance w) then pool_malloc api (effects w) sz st
             else direct_malloc api (effects w) sz) = None) \<and>
         (\<forall>p w'. mallocGPU api sz st (destroy w) = Inr (p, w') \<longrightarrow>
            p \<noteq> 0 \<and> Some p = direct_malloc api (effects (destroy w)) sz \<and>
            effects w' = effects (destroy w) @ [DirectAlloc sz])"
proof -
  have nn: "(if c then pool_malloc api h sz st else direct_malloc api h sz) = Some p \<Longrightarrow> p \<noteq> 0"
    for c h p
    using pool_nonnull direct_nonnull by (cases c) auto
  have a: "p \<noteq> 0 \<and>
            Some p = (if initialized_m (instance v) then pool_malloc api (effects v) sz st
                      else direct_malloc api (effects v) sz) \<and>
            effects w' = effects v @
              [if initialized_m (instance v) then PoolAlloc sz st else DirectAlloc sz]"
    if "mallocGPU api sz st v = Inr (p, w')" for p w' v
    using mallocGPU_Inr [OF that] nn [of "initialized_m (instance v)" "effects v" p] by simp
  have d: "initialized_m (instance (destroy w)) = False"
    by (simp add: destroy_def)
  show ?thesis
    using a [of w] a [of "destroy w"] mallocGPU_Inl [of api sz st w] by (simp add: d)
qed

text \<open>A request of 8 bytes on an initialized pool, and the same request after \<^verbatim>\<open>destroy\<close>.\<close>

theorem mallocGPU_pool_or_direct_witness:
  "(\<exists>p w'. mallocGPU api_ok 8 0 (Init world_active) = Inr (p, w') \<and> p \<noteq> 0 \<and>
      effects w' = effects (Init world_active) @ [PoolAlloc 8 0]) \<and>
   (\<exists>p w'. mallocGPU api_ok 8 0 (destroy (Init world_active)) = Inr (p, w') \<and> p \<noteq> 0 \<and>
      effects w' = effects (destroy (Init world_active)) @ [DirectAlloc 8])"
proof -
  have i: "initialized_m (instance (Init world_active))"
    by (simp add: Init_def)
  obtain w1 where m1: "mallocGPU api_ok 8 0 (Init world_active) = Inr (4096, w1)"
    by (simp add: mallocGPU_def allocate_memory_def api_ok_def i)
  obtain w2 where m2: "mallocGPU api_ok 8 0 (destroy (Init world_active)) = Inr (4096, w2)"
    by (simp add: mallocGPU_def allocate_memory_def api_ok_def destroy_def)
  show ?thesis
    using mallocGPU_pool_or_direct [of api_ok 8 0 "Init world_active", OF api_ok_nonnull] m1 m2 i
    by simp
qed

lemma exec_pool_inv:
  assumes "exec api x w = Inr w'" and "pool_inv w"
  shows "pool_inv w'"
proof (cases x)
  case (Op_mallocGPU sz st)
  with assms obtain p where "mallocGPU api sz st w = Inr (p, w')"
    by (auto split: sum.splits)
  from mallocGPU_Inr [OF this] assms(2) show ?thesis by (simp add: pool_inv_def)
next
  case Op_Init
  with assms show ?thesis by (auto simp: pool_inv_def Init_def split: if_splits)
qed (use assms in \<open>auto simp: pool_inv_def usePool_def setGPUs_def freeGPU_frame destroy_def\<close>)

lemma run_pool_inv:
  "run api xs w = Inr w' \<Longrightarrow> pool_inv w \<Longrightarrow> pool_inv w'"
proof (induction xs arbitrary: w)
  case Nil
  then show ?case by simp
next
  case (Cons x xs)
  then obtain wm where e: "exec api x w = Inr wm" and r: "run api xs wm = Inr w'"
    by (auto split: sum.splits)
  from exec_pool_inv [OF e Cons.prems(2)] Cons.IH [OF r] show ?case by simp
qed

lemma run_session:
  "run api_ok [Op_usePool, Op_setGPUs [0, 1], Op_Init, Op_mallocGPU 1024 0, Op_freeGPU 4096 0] world_new = Inr world_session"
  by (simp add: world_session_def world_new_def MemoryHandler_new_def usePool_def setGPUs_def
      Init_def mallocGPU_def allocate_memory_def api_ok_def freeGPU_def free_memory_def)

text \<open>
  Claim C6. Both flags are false in a constructed allocator. Every state that a run of the
  operations reaches from there satisfies \<^verbatim>\<open>initialized\<close> implies \<^verbatim>\<open>enabled\<close>. After
  \<^verbatim>\<open>destroy\<close> both flags are false. On an allocator that is not initialized,
  \<^verbatim>\<open>destroy\<close> tears nothing down and keeps the device list; on the allocator as
  constructed it changes neither the allocator nor the device traffic.
\<close>

theorem pool_invariant_reachable:
  "using_pool_m MemoryHandler_new = False \<and> initialized_m MemoryHandler_new = False \<and>
   (\<forall>ops w. run api ops world_new = Inr w \<longrightarrow> pool_inv w) \<and>
   using_pool_m (instance (destroy w)) = False \<and> initialized_m (instance (destroy w)) = False \<and>
   pool_inv (destroy w) \<and>
   (\<not> initialized_m (instance w) \<longrightarrow>
      effects (destroy w) = effects w \<and> gpus_m (instance (destroy w)) = gpus_m (instance w)) \<and>
   instance (destroy world_new) = instance world_new \<and>
   effects (destroy world_new) = effects world_new"
proof -
  have "pool_inv world_new"
    by (simp add: pool_inv_def world_new_def MemoryHandler_new_def)
  then have "\<forall>ops w. run api ops world_new = Inr w \<longrightarrow> pool_inv w"
    using run_pool_inv by blast
  then show ?thesis
    by (simp add: MemoryHandler_new_def destroy_def pool_inv_def world_new_def)
qed

text \<open>A run that enables, initializes and uses the pool; and \<^verbatim>\<open>destroy\<close> on a pool that was enabled and never initialized.\<close>

theorem pool_invariant_reachable_witness:
  "run api_ok [Op_usePool, Op_setGPUs [0, 1], Op_Init, Op_mallocGPU 1024 0, Op_freeGPU 4096 0]
     world_new = Inr world_session \<and>
   initialized_m (instance world_session) \<and> using_pool_m (instance world_session) \<and>
   pool_inv world_session \<and>
   effects (destroy world_active) = effects world_active"
proof -
  note t = pool_invariant_reachable [of api_ok world_active]
  have n: "\<not> initialized_m (instance world_active)" by (simp add: world_active_def)
  have "pool_inv world_session" using t run_session by blast
  moreover have "effects (destroy world_active) = effects world_active" using t n by blast
  moreover have "initialized_m (instance world_session) \<and> using_pool_m (instance world_session)"
    by (simp add: world_session_def)
  ultimately show ?thesis using run_session by simp
qed

section \<open>The execution context\<close>

lemma set_mode_same: "\<exists>c. set_mode fresh t m s t = Some c \<and> mode_m c = m"
  by (simp add: set_mode_def Get_def split: option.splits)

lemma set_mode_other: "u \<noteq> t \<Longrightarrow> set_mode fresh u m s t = s t"
  by (simp add: set_mode_def Get_def split: option.splits)

lemma set_modes_other:
  "\<forall>(u, m') \<in> set xs. u \<noteq> t \<Longrightarrow> set_modes fresh xs s t = s t"
proof (induction xs arbitrary: s)
  case Nil
  then show ?case by simp
next
  case (Cons x xs)
  obtain u m' where x: "x = (u, m')" by (cases x)
  with Cons.prems have "u \<noteq> t" and "\<forall>(u, m') \<in> set xs. u \<noteq> t" by auto
  then show ?case using Cons.IH [of "set_mode fresh u m' s"] by (simp add: x set_mode_other)
qed

lemma mode_of_instance: "s t = Some c \<Longrightarrow> mode fresh t s = (mode_m c, s)"
  by (simp add: mode_def Get_def)

text \<open>
  Claim C7. After \<^verbatim>\<open>set_mode(m)\<close> on thread \<open>t\<close>, \<^verbatim>\<open>mode()\<close> on \<open>t\<close> returns \<open>m\<close>,
  also when any number of other threads set their own mode in between.
\<close>

theorem set_mode_then_mode:
  assumes "\<forall>(u, m') \<in> set others. u \<noteq> t"
  shows "fst (mode fresh t (set_mode fresh t m s)) = m \<and>
         fst (mode fresh t (set_modes fresh others (set_mode fresh t m s))) = m"
proof -
  obtain c where c: "set_mode fresh t m s t = Some c" "mode_m c = m"
    using set_mode_same by blast
  have "set_modes fresh others (set_mode fresh t m s) t = Some c"
    using set_modes_other [OF assms] c(1) by simp
  then show ?thesis using c by (simp add: mode_of_instance)
qed

text \<open>Thread 0 selects the GPU while threads 1 and 2 select the CPU.\<close>

theorem set_mode_then_mode_witness:
  "fst (mode caffe_cpu 0 (set_modes caffe_cpu [(1, CPU), (2, CPU), (1, CPU)]
          (set_mode caffe_cpu 0 GPU no_threads))) = GPU"
proof -
  have "\<forall>(u, m') \<in> set [(1::nat, CPU), (2, CPU), (1, CPU)]. u \<noteq> 0" by simp
  from set_mode_then_mode [OF this] show ?thesis by blast
qed

lemma draw_seeded:
  assumes "s t = Some c" and "random_generator_m c = Some (Gen seed k)"
  shows "draw output fresh dflt t s =
           (output seed k, s(t \<mapsto> c\<lparr>random_generator_m := Some (Gen seed (Suc k))\<rparr>))"
  using assms by (simp add: draw_def rng_stream_def Get_def)

lemma draws_seeded:
  assumes "s t = Some c" and "random_generator_m c = Some (Gen seed k)"
  shows "fst (draws output fresh dflt t n s) = map (output seed) [k..<k + n]"
  using assms
proof (induction n arbitrary: s c k)
  case 0
  then show ?case by simp
next
  case (Suc n)
  let ?c = "c\<lparr>random_generator_m := Some (Gen seed (Suc k))\<rparr>"
  have d: "draw output fresh dflt t s = (output seed k, s(t \<mapsto> ?c))"
    using Suc.prems by (rule draw_seeded)
  obtain vs s' where r: "draws output fresh dflt t n (s(t \<mapsto> ?c)) = (vs, s')"
    by (cases "draws output fresh dflt t n (s(t \<mapsto> ?c))")
  have "fst (draws output fresh dflt t n (s(t \<mapsto> ?c))) = map (output seed) [Suc k..<Suc k + n]"
    by (rule Suc.IH [where c = ?c]) simp_all
  then have vs: "vs = map (output seed) [Suc k..<k + Suc n]" by (simp add: r)
  have u: "[k..<k + Suc n] = k # [Suc k..<k + Suc n]" by (rule upt_conv_Cons) simp
  have "fst (draws output fresh dflt t (Suc n) s) = output seed k # vs" by (simp add: d r)
  also have "\<dots> = map (output seed) (k # [Suc k..<k + Suc n])" by (simp only: vs list.map)
  finally show ?case by (simp only: u)
qed

lemma set_random_seed_instance:
  "\<exists>c. set_random_seed b fresh t seed s t = Some c \<and>
        random_generator_m c = Some (RNG_seeded seed) \<and>
        curand_generator_m c =
          (if CPU_ONLY b then curand_generator_m (fst (Get fresh t s)) else Some (RNG_seeded seed))"
  by (simp add: set_random_seed_def Get_def split: option.splits)

text \<open>
  Claim C8. After \<^verbatim>\<open>set_random_seed(seed)\<close> the first \<open>n\<close> draws through
  \<^verbatim>\<open>rng_stream()\<close> are the first \<open>n\<close> values of the generator seeded with \<open>seed\<close>,
  whatever the thread, the context it had before (none, or one with any generator state),
  the build and the default seed. Two runs with the same seed therefore draw the same
  sequence. The call leaves the host-side generator seeded with \<open>seed\<close> and, in a build
  with device support, the device-side generator too.
\<close>

theorem seeded_draws_reproducible:
  "fst (draws output fresh1 dflt1 t1 n (set_random_seed b1 fresh1 t1 seed s1)) =
     fst (draws output fresh2 dflt2 t2 n (set_random_seed b2 fresh2 t2 seed s2)) \<and>
   fst (draws output fresh1 dflt1 t1 n (set_random_seed b1 fresh1 t1 seed s1)) =
     map (output seed) [0..<n] \<and>
   (\<exists>c. set_random_seed b1 fresh1 t1 seed s1 t1 = Some c \<and>
        random_generator_m c = Some (RNG_seeded seed) \<and>
        curand_generator_m c =
          (if CPU_ONLY b1 then curand_generator_m (fst (Get fresh1 t1 s1))
           else Some (RNG_seeded seed)))"
proof -
  have r: "fst (draws output fresh dflt t n (set_random_seed b fresh t seed s)) =
     map (output seed) [0..<n]" for fresh dflt t b s
  proof -
    obtain c where "set_random_seed b fresh t seed s t = Some c"
      and "random_generator_m c = Some (Gen seed 0)"
      using set_random_seed_instance [of b fresh t seed s] by (auto simp: RNG_seeded_def)
    then show ?thesis using draws_seeded [where s = "set_random_seed b fresh t seed s" and t = t and c = c and k = 0 and seed = seed and n = n] by simp
  qed
  show ?thesis using set_random_seed_instance [of b1 fresh1 t1 seed s1] by (simp add: r)
qed

section \<open>Unimplemented paths\<close>

text \<open>
  Claim C9. \<^verbatim>\<open>NOT_IMPLEMENTED\<close> is the fatal termination with the message
  ``Not Implemented Yet''; it never yields a value, and whatever follows it in sequence
  does not run.
\<close>

theorem NOT_IMPLEMENTED_fatal:
  "(NOT_IMPLEMENTED :: fatal + 'a) = Inl (Fatal ''Not Implemented Yet'') \<and>
   (\<forall>x :: 'a. NOT_IMPLEMENTED \<noteq> Inr x) \<and>
   seq (NOT_IMPLEMENTED :: fatal + 'a) k = Inl (Fatal ''Not Implemented Yet'')"
  by (simp add: NOT_IMPLEMENTED_def LOG_FATAL_def seq_def)

section \<open>Builds without the pooling library\<close>

lemma ctor_nopool_value:
  "MemoryHandlerActivator_ctor build_gpu_nopool api_ok [0] world_new = Inr (activator_on, world_active)"
  by (simp add: MemoryHandlerActivator_ctor_def seq_def Let_def build_gpu_nopool_def api_ok_def
      world_new_def MemoryHandler_new_def usePool_def setGPUs_def mallocGPU_def
      allocate_memory_def freeGPU_def free_memory_def cudaStreamDefault_def
      activator_on_def world_active_def)

text \<open>
  Claim C10. In a build without \<^verbatim>\<open>USE_CNMEM\<close>, \<^verbatim>\<open>usingPool()\<close> is false in every
  state, also right after \<^verbatim>\<open>usePool()\<close> has set the member to true. An activation on a
  non-empty device list leaves the member true while \<^verbatim>\<open>usingPool()\<close> reports false
  before, during and after its scope, and its destructor still calls \<^verbatim>\<open>destroy()\<close> once.
\<close>

theorem usingPool_without_cnmem:
  assumes "\<not> USE_CNMEM b"
  shows "usingPool b w = False \<and>
         using_pool_m (instance (usePool w)) = True \<and> usingPool b (usePool w) = False \<and>
         (\<forall>this w1 w2. gpus \<noteq> [] \<and> MemoryHandlerActivator_ctor b api gpus w = Inr (this, w1) \<longrightarrow>
            using_pool_m (instance w1) = True \<and> usingPool b w1 = False \<and>
            usingPool b w2 = False \<and>
            calls_since w2 (MemoryHandlerActivator_dtor this w2) = [Call_destroy] \<and>
            usingPool b (MemoryHandlerActivator_dtor this w2) = False)"
proof -
  have u: "usingPool b v = False" for v
    using assms by (simp add: usingPool_def)
  have "calls_since w2 (MemoryHandlerActivator_dtor this w2) = [Call_destroy] \<and>
        using_pool_m (instance w1) = True"
    if "gpus \<noteq> []" and "MemoryHandlerActivator_ctor b api gpus w = Inr (this, w1)" for this w1 w2
  proof -
    have "calls_since w2 (MemoryHandlerActivator_dtor this w2) = [Call_destroy]"
      using ctor_Inr [OF that(2)] that(1) by (intro calls_since_append) (simp add: dtor_calls)
    then show ?thesis using ctor_Inr_instance [OF that] by simp
  qed
  then show ?thesis by (simp add: u usePool_def)
qed

text \<open>An activation on device 0 in a build with device support and without the pooling library.\<close>

theorem usingPool_without_cnmem_witness:
  "MemoryHandlerActivator_ctor build_gpu_nopool api_ok [0] world_new = Inr (activator_on, world_active) \<and>
   using_pool_m (instance world_active) = True \<and>
   usingPool build_gpu_nopool world_active = False \<and>
   calls_since world_active (MemoryHandlerActivator_dtor activator_on world_active) = [Call_destroy] \<and>
   usingPool build_gpu_nopool (MemoryHandlerActivator_dtor activator_on world_active) = False"
proof -
  have n: "\<not> USE_CNMEM build_gpu_nopool" by (simp add: build_gpu_nopool_def)
  have ne: "[0::int] \<noteq> []" by simp
  show ?thesis
    using usingPool_without_cnmem [OF n, of world_new "[0]" api_ok] ne ctor_nopool_value
    by blast
qed

end
